theory Spec2Isabelle
  imports Main "HOL-Library.Sublist"
begin

section \<open>JavaScript values used by the catalogue browser\<close>

text \<open>
  Strings are sequences of code units; the model keeps the code units below 256
  (Latin-1), which is what \<^typ>\<open>char\<close> holds. On that range
  \<^verbatim>\<open>toLowerCase\<close> maps code unit to code unit and \<^verbatim>\<open>trim\<close> removes
  the seven white space and line terminator code units listed below. Numbers
  (\<^verbatim>\<open>page\<close>, \<^verbatim>\<open>booksPerPage\<close>, array lengths) are integers.
\<close>

datatype error = TypeError

definition isWhiteSpace :: "char \<Rightarrow> bool" where
  "isWhiteSpace c \<longleftrightarrow>
     c = CHR 0x09 \<or> c = CHR 0x0A \<or> c = CHR 0x0B \<or> c = CHR 0x0C \<or>
     c = CHR 0x0D \<or> c = CHR 0x20 \<or> c = CHR 0xA0"

text \<open>\<^verbatim>\<open>String.prototype.trim\<close>: white space removed from both ends.\<close>

definition trim :: "string \<Rightarrow> string" where
  "trim s = rev (dropWhile isWhiteSpace (rev (dropWhile isWhiteSpace s)))"

text \<open>
  \<^verbatim>\<open>String.prototype.toLowerCase\<close> on one code unit: A-Z and the upper case
  letters of Latin-1 (0xC0-0xDE without the multiplication sign 0xD7) move up by 32.
\<close>

definition toLowerCase_char :: "char \<Rightarrow> char" where
  "toLowerCase_char c =
     (let n = (of_char c :: nat)
      in if (65 \<le> n \<and> n \<le> 90) \<or> (192 \<le> n \<and> n \<le> 222 \<and> n \<noteq> 215)
         then char_of (n + 32) else c)"

definition toLowerCase :: "string \<Rightarrow> string" where
  "toLowerCase s = map toLowerCase_char s"

text \<open>\<^verbatim>\<open>String.prototype.includes\<close>: the search string occurs at some position.\<close>

fun startsWith :: "string \<Rightarrow> string \<Rightarrow> bool" where
  "startsWith s [] = True"
| "startsWith [] (q # qs) = False"
| "startsWith (c # cs) (q # qs) = (c = q \<and> startsWith cs qs)"

fun includes_str :: "string \<Rightarrow> string \<Rightarrow> bool" where
  "includes_str [] q = (q = [])"
| "includes_str (c # cs) q = (startsWith (c # cs) q \<or> includes_str cs q)"

text \<open>
  \<^verbatim>\<open>Array.prototype.includes\<close> on an array of strings; the searched value may
  be \<^verbatim>\<open>undefined\<close> (\<open>None\<close>), which no string equals.
\<close>

fun array_includes :: "string list \<Rightarrow> string option \<Rightarrow> bool" where
  "array_includes [] v = False"
| "array_includes (x # xs) v = (Some x = v \<or> array_includes xs v)"

text \<open>
  \<^verbatim>\<open>Array.prototype.filter\<close> with a callback that may throw: the elements are
  visited in order and the first exception leaves the call.
\<close>

fun array_filter :: "('a \<Rightarrow> error + bool) \<Rightarrow> 'a list \<Rightarrow> error + 'a list" where
  "array_filter p [] = Inr []"
| "array_filter p (x # xs) =
     (case p x of
        Inl e \<Rightarrow> Inl e
      | Inr keep \<Rightarrow>
          (case array_filter p xs of
             Inl e \<Rightarrow> Inl e
           | Inr ys \<Rightarrow> Inr (if keep then x # ys else ys)))"

text \<open>
  \<^verbatim>\<open>Array.prototype.slice(start, end)\<close>: negative indices count from the end,
  both are clipped to the array, and an empty range gives the empty array.
\<close>

definition slice :: "'a list \<Rightarrow> int \<Rightarrow> int \<Rightarrow> 'a list" where
  "slice xs start end =
     (let len = int (length xs);
          k = (if start < 0 then max (len + start) 0 else min start len);
          final = (if end < 0 then max (len + end) 0 else min end len)
      in take (nat (final - k)) (drop (nat k) xs))"

section \<open>utils.js\<close>

record book =
  id_book :: string
  title :: string
  author :: string
  genres :: "string list"
  image_src :: string
  description :: string
  published :: string

text \<open>
  The filters object is what \<^verbatim>\<open>Object.fromEntries(formData)\<close> builds: a
  dictionary from field names to strings; a missing field reads as
  \<^verbatim>\<open>undefined\<close>.
\<close>

type_synonym filters = "string \<rightharpoonup> string"

text \<open>
  The arrow function of \<^verbatim>\<open>filterBooks\<close>. Its three constants are computed
  one after the other, so \<^verbatim>\<open>filters.title.trim()\<close> is evaluated for every
  book and raises a TypeError when the title field is missing.
\<close>

definition filterBooks_callback :: "filters \<Rightarrow> book \<Rightarrow> error + bool" where
  "filterBooks_callback filters b =
     (let genreMatch = (filters ''genre'' = Some ''any''
                        \<or> array_includes (genres b) (filters ''genre''))
      in case filters ''title'' of
           None \<Rightarrow> Inl TypeError
         | Some t \<Rightarrow>
             (let titleMatch = (trim t = ''''
                                \<or> includes_str (toLowerCase (title b)) (toLowerCase t));
                  authorMatch = (filters ''author'' = Some ''any''
                                 \<or> Some (author b) = filters ''author'')
              in Inr (genreMatch \<and> titleMatch \<and> authorMatch)))"

definition filterBooks :: "book list \<Rightarrow> filters \<Rightarrow> error + book list" where
  "filterBooks books filters = array_filter (filterBooks_callback filters) books"

text \<open>\<^verbatim>\<open>books.find(book => book.id === id)\<close>; \<open>None\<close> is \<^verbatim>\<open>undefined\<close>.\<close>

definition findBookById :: "book list \<Rightarrow> string \<Rightarrow> book option" where
  "findBookById books i = find (\<lambda>b. id_book b = i) books"

text \<open>
  The show-more button: its \<^verbatim>\<open>disabled\<close> property and the number printed in
  its \<^verbatim>\<open>list__remaining\<close> span.
\<close>

record button =
  disabled :: bool
  remaining_shown :: int

definition updateShowMoreButton :: "button \<Rightarrow> int \<Rightarrow> int \<Rightarrow> int \<Rightarrow> button" where
  "updateShowMoreButton btn matchesLength page booksPerPage =
     (let remainingBooks = matchesLength - page * booksPerPage
      in btn\<lparr>disabled := (remainingBooks \<le> 0),
             remaining_shown := (if remainingBooks > 0 then remainingBooks else 0)\<rparr>)"

text \<open>
  The card \<^verbatim>\<open>createBookElement\<close> builds: the \<^verbatim>\<open>data-preview\<close> attribute,
  the image source, the title and the author's name looked up in the registry
  (\<open>None\<close> when the registry has no such author).
\<close>

record card =
  data_preview :: string
  card_image :: string
  card_title :: string
  card_author :: "string option"

definition createBookElement :: "book \<Rightarrow> (string \<rightharpoonup> string) \<Rightarrow> card" where
  "createBookElement b authors =
     \<lparr>data_preview = id_book b, card_image = image_src b,
      card_title = title b, card_author = authors (author b)\<rparr>"

section \<open>scripts.js\<close>

text \<open>
  The part of the page the handlers read and write: the cards under
  \<^verbatim>\<open>data-list-items\<close>, the show-more button, the empty-result message, the
  two overlays, the theme and the preview dialog. The subtitle of the preview
  keeps the author's name and the book's \<^verbatim>\<open>published\<close> value, from which the
  page prints the year. The options of the two dropdowns are not part of the
  modelled state.

  The page also holds the registered listeners. Every element the script listens
  on has one call site of \<^verbatim>\<open>addEventListener\<close>, which passes a fresh function
  (an arrow function or the result of \<^verbatim>\<open>bind\<close>) each time it runs, so no
  registration is ever dropped as a duplicate: a registration is recorded by the
  element it is made on, in the order of the calls.
\<close>

datatype target =
    data_search_cancel
  | data_settings_cancel
  | data_header_search
  | data_header_settings
  | data_list_close
  | data_settings_form
  | data_search_form
  | data_list_button
  | data_list_items

record document =
  listeners :: "target list"
  list_items :: "card list"
  list_button :: button
  list_message_show :: bool
  search_overlay_open :: bool
  settings_overlay_open :: bool
  settings_theme :: string
  color_dark :: string
  color_light :: string
  list_active_open :: bool
  list_blur :: string
  list_image :: string
  list_title :: string
  list_subtitle :: "string option \<times> string"
  list_description :: string

text \<open>
  The fields of a \<^verbatim>\<open>BookApp\<close> object, with the page it works on. The book
  list and \<^verbatim>\<open>BOOKS_PER_PAGE\<close> come from \<^verbatim>\<open>data.js\<close> and are parameters.
\<close>

record BookApp =
  books :: "book list"
  authors :: "string \<rightharpoonup> string"
  genres_registry :: "string \<rightharpoonup> string"
  booksPerPage :: int
  page :: int
  matches :: "book list"
  doc :: document

definition renderBooks :: "BookApp \<Rightarrow> BookApp" where
  "renderBooks this =
     this\<lparr>doc := (doc this)\<lparr>list_items :=
        list_items (doc this)
        @ map (\<lambda>b. createBookElement b (authors this))
              (slice (matches this) 0 (booksPerPage this))\<rparr>\<rparr>"

definition setupTheme :: "bool \<Rightarrow> BookApp \<Rightarrow> BookApp" where
  "setupTheme prefersDark this =
     (if prefersDark
      then this\<lparr>doc := (doc this)\<lparr>settings_theme := ''night'',
                                    color_dark := ''255, 255, 255'',
                                    color_light := ''10, 10, 20''\<rparr>\<rparr>
      else this\<lparr>doc := (doc this)\<lparr>settings_theme := ''day'',
                                    color_dark := ''10, 10, 20'',
                                    color_light := ''255, 255, 255''\<rparr>\<rparr>)"

text \<open>The method \<^verbatim>\<open>updateShowMoreButton\<close> of the class.\<close>

definition updateShowMoreButton_method :: "BookApp \<Rightarrow> BookApp" where
  "updateShowMoreButton_method this =
     this\<lparr>doc := (doc this)\<lparr>list_button :=
        updateShowMoreButton (list_button (doc this)) (int (length (matches this)))
          (page this) (booksPerPage this)\<rparr>\<rparr>"

text \<open>
  \<^verbatim>\<open>setupEventListeners\<close> makes its nine registrations and then updates the
  show-more button.
\<close>

definition setupEventListeners :: "BookApp \<Rightarrow> BookApp" where
  "setupEventListeners this =
     updateShowMoreButton_method
       (this\<lparr>doc := (doc this)\<lparr>listeners :=
          listeners (doc this)
          @ [data_search_cancel, data_settings_cancel, data_header_search,
             data_header_settings, data_list_close, data_settings_form,
             data_search_form, data_list_button, data_list_items]\<rparr>\<rparr>)"

definition init :: "bool \<Rightarrow> BookApp \<Rightarrow> BookApp" where
  "init prefersDark this = setupEventListeners (setupTheme prefersDark (renderBooks this))"

text \<open>The constructor stores its arguments and calls \<^verbatim>\<open>init\<close>.\<close>

definition constructor ::
  "book list \<Rightarrow> (string \<rightharpoonup> string) \<Rightarrow> (string \<rightharpoonup> string) \<Rightarrow> int \<Rightarrow> bool \<Rightarrow> document \<Rightarrow> BookApp"
where
  "constructor bs as gs perPage prefersDark d =
     init prefersDark
       \<lparr>books = bs, authors = as, genres_registry = gs, booksPerPage = perPage,
        page = 1, matches = bs, doc = d\<rparr>"

text \<open>
  The last two lines of the script: the object is constructed and
  \<^verbatim>\<open>init\<close> is called on it once more, so the first page is appended to
  the list a second time (and every listener is registered a second time).
\<close>

definition bookApp ::
  "book list \<Rightarrow> (string \<rightharpoonup> string) \<Rightarrow> (string \<rightharpoonup> string) \<Rightarrow> int \<Rightarrow> bool \<Rightarrow> document \<Rightarrow> BookApp"
where
  "bookApp bs as gs perPage prefersDark d =
     init prefersDark (constructor bs as gs perPage prefersDark d)"

definition handleThemeChange :: "string option \<Rightarrow> BookApp \<Rightarrow> BookApp" where
  "handleThemeChange theme this =
     (let this1 =
        (if theme = Some ''night''
         then this\<lparr>doc := (doc this)\<lparr>color_dark := ''255, 255, 255'',
                                       color_light := ''10, 10, 20''\<rparr>\<rparr>
         else this\<lparr>doc := (doc this)\<lparr>color_dark := ''10, 10, 20'',
                                       color_light := ''255, 255, 255''\<rparr>\<rparr>)
      in this1\<lparr>doc := (doc this1)\<lparr>settings_overlay_open := False\<rparr>\<rparr>)"

definition renderBookList :: "book list \<Rightarrow> BookApp \<Rightarrow> BookApp" where
  "renderBookList bs this =
     this\<lparr>doc := (doc this)\<lparr>list_items :=
        map (\<lambda>b. createBookElement b (authors this)) (slice bs 0 (booksPerPage this))\<rparr>\<rparr>"

text \<open>
  \<^verbatim>\<open>handleSearch\<close> assigns \<^verbatim>\<open>this.page\<close> before it calls
  \<^verbatim>\<open>filterBooks\<close>; when that call throws, the handler is left with the page
  already reset and nothing else changed.
\<close>

definition handleSearch :: "filters \<Rightarrow> BookApp \<Rightarrow> (error \<times> BookApp) + BookApp" where
  "handleSearch filters this =
     (let this1 = this\<lparr>page := 1\<rparr>
      in case filterBooks (books this1) filters of
           Inl e \<Rightarrow> Inl (e, this1)
         | Inr result \<Rightarrow>
             (let this2 = this1\<lparr>matches := result\<rparr>;
                  this3 = this2\<lparr>doc := (doc this2)\<lparr>list_message_show :=
                            (length (matches this2) < 1)\<rparr>\<rparr>;
                  this4 = renderBookList (matches this3) this3;
                  this5 = updateShowMoreButton_method this4
              in Inr (this5\<lparr>doc := (doc this5)\<lparr>search_overlay_open := False\<rparr>\<rparr>)))"

definition showMoreBooks :: "BookApp \<Rightarrow> BookApp" where
  "showMoreBooks this =
     (let this1 = this\<lparr>doc := (doc this)\<lparr>list_items :=
                    list_items (doc this)
                    @ map (\<lambda>b. createBookElement b (authors this))
                          (slice (matches this) (page this * booksPerPage this)
                                 ((page this + 1) * booksPerPage this))\<rparr>\<rparr>;
          this2 = this1\<lparr>page := page this1 + 1\<rparr>
      in updateShowMoreButton_method this2)"

text \<open>
  The loop of \<^verbatim>\<open>showBookPreview\<close> over the event path. A node is given by its
  \<^verbatim>\<open>dataset.preview\<close> (\<open>None\<close> when it has none; the empty string is falsy).
\<close>

fun find_active :: "book list \<Rightarrow> string option list \<Rightarrow> book option \<Rightarrow> book option" where
  "find_active bs [] active = active"
| "find_active bs (node # pathArray) active =
     (if active \<noteq> None then active
      else find_active bs pathArray
             (case node of
                None \<Rightarrow> active
              | Some preview \<Rightarrow> if preview \<noteq> '''' then findBookById bs preview else active))"

definition showBookPreview :: "string option list \<Rightarrow> BookApp \<Rightarrow> BookApp" where
  "showBookPreview pathArray this =
     (case find_active (books this) pathArray None of
        None \<Rightarrow> this
      | Some active \<Rightarrow>
          this\<lparr>doc := (doc this)\<lparr>list_active_open := True,
                                  list_blur := image_src active,
                                  list_image := image_src active,
                                  list_title := title active,
                                  list_subtitle := (authors this (author active), published active),
                                  list_description := description active\<rparr>\<rparr>)"

text \<open>
  The events the script listens for: the four of the Application Controller and
  the five clicks that open or close an overlay. Each one is raised on one element.
\<close>

datatype event =
    SearchSubmitted filters
  | ShowMoreClicked
  | CardClicked "string option list"
  | ThemeSubmitted "string option"
  | SearchCancelClicked
  | SettingsCancelClicked
  | HeaderSearchClicked
  | HeaderSettingsClicked
  | ListCloseClicked

fun target_of :: "event \<Rightarrow> target" where
  "target_of (SearchSubmitted filters) = data_search_form"
| "target_of ShowMoreClicked = data_list_button"
| "target_of (CardClicked pathArray) = data_list_items"
| "target_of (ThemeSubmitted theme) = data_settings_form"
| "target_of SearchCancelClicked = data_search_cancel"
| "target_of SettingsCancelClicked = data_settings_cancel"
| "target_of HeaderSearchClicked = data_header_search"
| "target_of HeaderSettingsClicked = data_header_settings"
| "target_of ListCloseClicked = data_list_close"

text \<open>
  One run of the function that \<^verbatim>\<open>setupEventListeners\<close> registers on the
  element of the event: the bound method for the four events of the controller,
  the arrow function for the five overlay clicks.
\<close>

fun listener :: "event \<Rightarrow> BookApp \<Rightarrow> (error \<times> BookApp) + BookApp" where
  "listener (SearchSubmitted filters) this = handleSearch filters this"
| "listener ShowMoreClicked this = Inr (showMoreBooks this)"
| "listener (CardClicked pathArray) this = Inr (showBookPreview pathArray this)"
| "listener (ThemeSubmitted theme) this = Inr (handleThemeChange theme this)"
| "listener SearchCancelClicked this =
     Inr (this\<lparr>doc := (doc this)\<lparr>search_overlay_open := False\<rparr>\<rparr>)"
| "listener SettingsCancelClicked this =
     Inr (this\<lparr>doc := (doc this)\<lparr>settings_overlay_open := False\<rparr>\<rparr>)"
| "listener HeaderSearchClicked this =
     Inr (this\<lparr>doc := (doc this)\<lparr>search_overlay_open := True\<rparr>\<rparr>)"
| "listener HeaderSettingsClicked this =
     Inr (this\<lparr>doc := (doc this)\<lparr>settings_overlay_open := True\<rparr>\<rparr>)"
| "listener ListCloseClicked this =
     Inr (this\<lparr>doc := (doc this)\<lparr>list_active_open := False\<rparr>\<rparr>)"

text \<open>The object as one run of a listener leaves it, whether it returned or threw.\<close>

fun state_after :: "(error \<times> BookApp) + BookApp \<Rightarrow> BookApp" where
  "state_after (Inl (e, this)) = this"
| "state_after (Inr this) = this"

text \<open>
  An event that is dispatched runs every listener registered on its element, in
  the order of registration. A listener that throws does not keep the later ones
  from running: its exception is reported and the dispatch goes on. The result is
  the list of the reported exceptions and the object after the last listener.
\<close>

fun invoke_listeners :: "target list \<Rightarrow> event \<Rightarrow> BookApp \<Rightarrow> error list \<times> BookApp" where
  "invoke_listeners [] e this = ([], this)"
| "invoke_listeners (t # ts) e this =
     (if t = target_of e
      then (case listener e this of
              Inl (err, this1) \<Rightarrow>
                (case invoke_listeners ts e this1 of
                   (errs, this2) \<Rightarrow> (err # errs, this2))
            | Inr this1 \<Rightarrow> invoke_listeners ts e this1)
      else invoke_listeners ts e this)"

definition handle :: "event \<Rightarrow> BookApp \<Rightarrow> error list \<times> BookApp" where
  "handle e this = invoke_listeners (listeners (doc this)) e this"

section \<open>The notions of the specification\<close>

text \<open>
  The definitions of this section follow the words of the specification, for
  comparison with the functions above, which follow the code.
\<close>

text \<open>A title query is empty or whitespace-only.\<close>

definition whitespace_only :: "string \<Rightarrow> bool" where
  "whitespace_only s = list_all isWhiteSpace s"

text \<open>A text contains a query as a case-insensitive substring.\<close>

definition contains_ignoring_case :: "string \<Rightarrow> string \<Rightarrow> bool" where
  "contains_ignoring_case text q = sublist (toLowerCase q) (toLowerCase text)"

text \<open>The conjunction of the genre, title and author conditions of the Filter Engine.\<close>

definition satisfies_criteria :: "string \<Rightarrow> string \<Rightarrow> string \<Rightarrow> book \<Rightarrow> bool" where
  "satisfies_criteria titleQuery authorId genreId b \<longleftrightarrow>
     (genreId = ''any'' \<or> genreId \<in> set (genres b))
     \<and> (titleQuery = '''' \<or> whitespace_only titleQuery
          \<or> contains_ignoring_case (title b) titleQuery)
     \<and> (authorId = ''any'' \<or> authorId = author b)"

text \<open>The Pagination Controller's derived values.\<close>

definition remainingCount :: "nat \<Rightarrow> int \<Rightarrow> int \<Rightarrow> int" where
  "remainingCount matchesLength currentPage pageSize =
     max 0 (int matchesLength - currentPage * pageSize)"

definition canShowMore :: "nat \<Rightarrow> int \<Rightarrow> int \<Rightarrow> bool" where
  "canShowMore matchesLength currentPage pageSize \<longleftrightarrow>
     remainingCount matchesLength currentPage pageSize > 0"

text \<open>
  The batch \<open>matches[currentPage*pageSize .. (currentPage+1)*pageSize)\<close>, clipped
  to the length of \<open>matches\<close>.
\<close>

definition nextPageSlice :: "'a list \<Rightarrow> int \<Rightarrow> int \<Rightarrow> 'a list" where
  "nextPageSlice ms currentPage pageSize =
     map (\<lambda>i. ms ! i)
       [nat (currentPage * pageSize) ..<
        min (nat ((currentPage + 1) * pageSize)) (length ms)]"

text \<open>The session invariant: the matches are a subsequence of the book list.\<close>

definition matches_within :: "BookApp \<Rightarrow> bool" where
  "matches_within this \<longleftrightarrow> subseq (matches this) (books this)"

section \<open>Example data\<close>

definition dune :: book where
  "dune = \<lparr>id_book = ''1'', title = ''Dune'', author = ''a1'', genres = [''sf''],
           image_src = ''dune.jpg'', description = ''Desert planet'',
           published = ''1965-08-01''\<rparr>"

definition hobbit :: book where
  "hobbit = \<lparr>id_book = ''2'', title = ''Hobbit'', author = ''a2'', genres = [''fantasy''],
             image_src = ''hobbit.jpg'', description = ''There and back again'',
             published = ''1937-09-21''\<rparr>"

definition emma :: book where
  "emma = \<lparr>id_book = ''3'', title = ''Emma'', author = ''a3'', genres = [''romance''],
           image_src = ''emma.jpg'', description = ''A matchmaker'',
           published = ''1815-12-23''\<rparr>"

definition walden :: book where
  "walden = \<lparr>id_book = ''4'', title = ''Walden'', author = ''a4'', genres = [''essay''],
             image_src = ''walden.jpg'', description = ''Life in the woods'',
             published = ''1854-08-09''\<rparr>"

definition ulysses :: book where
  "ulysses = \<lparr>id_book = ''5'', title = ''Ulysses'', author = ''a5'',
              genres = [''fiction'', ''modernism''],
              image_src = ''ulysses.jpg'', description = ''One day in Dublin'',
              published = ''1922-02-02''\<rparr>"

text \<open>A second record with the id of \<open>dune\<close>, for the first-match behaviour of the lookup.\<close>

definition dune_reissue :: book where
  "dune_reissue = dune\<lparr>title := ''Dune (reissue)'', published := ''2005-08-02''\<rparr>"

definition example_authors :: "string \<rightharpoonup> string" where
  "example_authors = [''a1'' \<mapsto> ''Frank Herbert'', ''a2'' \<mapsto> ''J. R. R. Tolkien'']"

definition blank_document :: document where
  "blank_document =
     \<lparr>listeners = [],
      list_items = [], list_button = \<lparr>disabled = False, remaining_shown = 0\<rparr>,
      list_message_show = False, search_overlay_open = False,
      settings_overlay_open = False, settings_theme = '''', color_dark = '''',
      color_light = '''', list_active_open = False, list_blur = '''', list_image = '''',
      list_title = '''', list_subtitle = (None, ''''), list_description = ''''\<rparr>"

text \<open>The object after the script has run on a blank page in a light colour scheme.\<close>

definition started :: "book list \<Rightarrow> int \<Rightarrow> BookApp" where
  "started bs perPage = bookApp bs example_authors Map.empty perPage False blank_document"

definition criteria :: "string \<Rightarrow> string \<Rightarrow> string \<Rightarrow> filters" where
  "criteria titleQuery authorId genreId =
     [''title'' \<mapsto> titleQuery, ''author'' \<mapsto> authorId, ''genre'' \<mapsto> genreId]"

section \<open>Properties of the string and array functions\<close>

lemma startsWith_prefix: "startsWith s q \<longleftrightarrow> prefix q s"
  by (induction s q rule: startsWith.induct) auto

text \<open>\<open>includes_str\<close> decides that the query occurs somewhere in the text.\<close>

lemma includes_str_sublist: "includes_str s q \<longleftrightarrow> sublist q s"
proof (induction s)
  case Nil
  show ?case by simp
next
  case (Cons c cs)
  show ?case
    by (simp add: Cons.IH startsWith_prefix sublist_Cons_right del: startsWith.simps)
qed

text \<open>The trimmed string is empty exactly when every code unit is white space.\<close>

lemma trim_empty_iff: "trim s = [] \<longleftrightarrow> (\<forall>c \<in> set s. isWhiteSpace c)"
proof
  assume "trim s = []"
  then have all: "\<forall>c \<in> set (dropWhile isWhiteSpace s). isWhiteSpace c"
    by (simp add: trim_def)
  show "\<forall>c \<in> set s. isWhiteSpace c"
  proof (cases "dropWhile isWhiteSpace s")
    case Nil
    then show ?thesis by simp
  next
    case (Cons d ds)
    then have "\<not> isWhiteSpace d"
      using hd_dropWhile [of isWhiteSpace s] by simp
    with all Cons show ?thesis by simp
  qed
next
  assume "\<forall>c \<in> set s. isWhiteSpace c"
  then have "dropWhile isWhiteSpace s = []"
    by simp
  then show "trim s = []"
    unfolding trim_def by (simp only: rev.simps dropWhile.simps)
qed

lemma trim_empty_whitespace_only: "trim s = [] \<longleftrightarrow> s = [] \<or> whitespace_only s"
  by (auto simp: trim_empty_iff whitespace_only_def list_all_iff)

lemma array_includes_iff: "array_includes xs v \<longleftrightarrow> (\<exists>g. v = Some g \<and> g \<in> set xs)"
  by (induction xs) auto

lemma array_filter_total:
  "(\<And>x. x \<in> set xs \<Longrightarrow> p x = Inr (q x)) \<Longrightarrow> array_filter p xs = Inr (filter q xs)"
  by (induction xs) simp_all

section \<open>The Filter Engine\<close>

text \<open>With a title field the callback never throws, and the filter is a plain one.\<close>

lemma filterBooks_title_present:
  assumes "filters ''title'' = Some t"
  shows "filterBooks bs filters =
         Inr (filter (\<lambda>b. (filters ''genre'' = Some ''any''
                            \<or> array_includes (genres b) (filters ''genre''))
                         \<and> (trim t = '''' \<or> includes_str (toLowerCase (title b)) (toLowerCase t))
                         \<and> (filters ''author'' = Some ''any''
                            \<or> Some (author b) = filters ''author'')) bs)"
  unfolding filterBooks_def
  by (rule array_filter_total) (simp add: filterBooks_callback_def assms)

text \<open>Without a title field the first book already throws.\<close>

lemma filterBooks_title_absent:
  assumes "filters ''title'' = None"
  shows "filterBooks bs filters = (if bs = [] then Inr [] else Inl TypeError)"
proof (cases bs)
  case Nil
  then show ?thesis by (simp add: filterBooks_def)
next
  case (Cons b rest)
  then show ?thesis by (simp add: filterBooks_def filterBooks_callback_def assms)
qed

lemma filterBooks_criteria:
  "filterBooks bs (criteria t a g) = Inr (filter (satisfies_criteria t a g) bs)"
proof -
  have "filterBooks bs (criteria t a g) =
        Inr (filter (\<lambda>b. (g = ''any'' \<or> g \<in> set (genres b))
                        \<and> (trim t = '''' \<or> sublist (toLowerCase t) (toLowerCase (title b)))
                        \<and> (a = ''any'' \<or> author b = a)) bs)"
    using filterBooks_title_present [of "criteria t a g" t bs]
    by (simp add: criteria_def array_includes_iff includes_str_sublist)
  also have "\<dots> = Inr (filter (satisfies_criteria t a g) bs)"
    by (rule arg_cong [where f = Inr], rule filter_cong)
       (auto simp: satisfies_criteria_def contains_ignoring_case_def
          trim_empty_whitespace_only)
  finally show ?thesis .
qed

text \<open>
  C1, as the code has it: the filter is total on the criteria that have a title
  field, where a missing genre or author field is not read as "any" but matches no
  book; with the title field missing it returns the empty list for the empty book
  list only and throws a TypeError for every other one.
\<close>

theorem filterBooks_missing_fields:
  "(filters ''title'' = Some t \<longrightarrow>
      filterBooks bs filters =
      Inr (filter (\<lambda>b. (filters ''genre'' = Some ''any''
                         \<or> (\<exists>g. filters ''genre'' = Some g \<and> g \<in> set (genres b)))
                      \<and> (trim t = '''' \<or> includes_str (toLowerCase (title b)) (toLowerCase t))
                      \<and> (filters ''author'' = Some ''any''
                         \<or> filters ''author'' = Some (author b))) bs))
   \<and> (filters ''title'' = Some t \<and> (filters ''genre'' = None \<or> filters ''author'' = None) \<longrightarrow>
      filterBooks bs filters = Inr [])
   \<and> (filters ''title'' = None \<longrightarrow>
      filterBooks bs filters = (if bs = [] then Inr [] else Inl TypeError))"
proof (intro conjI impI)
  assume t: "filters ''title'' = Some t"
  show "filterBooks bs filters =
      Inr (filter (\<lambda>b. (filters ''genre'' = Some ''any''
                         \<or> (\<exists>g. filters ''genre'' = Some g \<and> g \<in> set (genres b)))
                      \<and> (trim t = '''' \<or> includes_str (toLowerCase (title b)) (toLowerCase t))
                      \<and> (filters ''author'' = Some ''any''
                         \<or> filters ''author'' = Some (author b))) bs)"
    unfolding filterBooks_title_present [where filters = filters and t = t, OF t] array_includes_iff
    by (rule arg_cong [where f = Inr], rule filter_cong) auto
next
  assume "filters ''title'' = Some t \<and> (filters ''genre'' = None \<or> filters ''author'' = None)"
  then show "filterBooks bs filters = Inr []"
    by (auto simp: filterBooks_title_present array_includes_iff)
next
  assume "filters ''title'' = None"
  then show "filterBooks bs filters = (if bs = [] then Inr [] else Inl TypeError)"
    by (rule filterBooks_title_absent)
qed

theorem filterBooks_missing_fields_witness:
  "filterBooks [dune, hobbit] [''title'' \<mapsto> ''o'', ''genre'' \<mapsto> ''any''] = Inr []
   \<and> filterBooks [dune, hobbit] [''author'' \<mapsto> ''a2'', ''genre'' \<mapsto> ''any''] = Inl TypeError
   \<and> filterBooks [] [''author'' \<mapsto> ''a2'', ''genre'' \<mapsto> ''any''] = Inr []"
  using filterBooks_missing_fields
          [of "[''title'' \<mapsto> ''o'', ''genre'' \<mapsto> ''any'']" "''o''" "[dune, hobbit]"]
        filterBooks_missing_fields
          [of "[''author'' \<mapsto> ''a2'', ''genre'' \<mapsto> ''any'']" "''o''" "[dune, hobbit]"]
        filterBooks_missing_fields
          [of "[''author'' \<mapsto> ''a2'', ''genre'' \<mapsto> ''any'']" "''o''" "[]"]
  by simp

text \<open>
  The claim as stated fails: criteria without a title field make the filter throw
  on a one-book list, and criteria without a genre field drop a book that the
  "any" default would keep.
\<close>

theorem filterBooks_missing_title_counterexample:
  "filterBooks [dune] [''author'' \<mapsto> ''any'', ''genre'' \<mapsto> ''any''] = Inl TypeError
   \<and> filterBooks [dune] [''title'' \<mapsto> '''', ''author'' \<mapsto> ''any''] = Inr []"
  by code_simp

text \<open>
  C3: for criteria with all three fields, \<open>filterBooks\<close> returns exactly the books
  that satisfy the conjunction of the genre, title and author conditions, in the
  order of the book list; on the two-book list with the title query "du" the
  result is the book with id "1" alone.
\<close>

theorem filterBooks_conjunction:
  assumes "filters ''title'' = Some titleQuery"
    and "filters ''author'' = Some authorId"
    and "filters ''genre'' = Some genreId"
  shows "filterBooks bs filters = Inr (filter (satisfies_criteria titleQuery authorId genreId) bs)
       \<and> filterBooks [dune, hobbit]
           [''title'' \<mapsto> ''du'', ''author'' \<mapsto> ''any'', ''genre'' \<mapsto> ''any''] = Inr [dune]
       \<and> id_book dune = ''1''"
proof (intro conjI)
  have "filterBooks bs filters = filterBooks bs (criteria titleQuery authorId genreId)"
    unfolding filterBooks_def
    by (rule arg_cong [where f = "\<lambda>p. array_filter p bs"])
       (auto simp: filterBooks_callback_def criteria_def assms)
  then show "filterBooks bs filters =
             Inr (filter (satisfies_criteria titleQuery authorId genreId) bs)"
    by (simp add: filterBooks_criteria)
next
  show "filterBooks [dune, hobbit]
          [''title'' \<mapsto> ''du'', ''author'' \<mapsto> ''any'', ''genre'' \<mapsto> ''any''] = Inr [dune]"
    by code_simp
next
  show "id_book dune = ''1''" by (simp add: dune_def)
qed

theorem filterBooks_conjunction_witness:
  "filterBooks [dune, hobbit, ulysses] (criteria ''  '' ''a2'' ''fantasy'') = Inr [hobbit]
   \<and> filter (satisfies_criteria ''SS'' ''any'' ''modernism'') [dune, hobbit, ulysses] = [ulysses]"
proof -
  have a: "filter (satisfies_criteria ''  '' ''a2'' ''fantasy'') [dune, hobbit, ulysses] = [hobbit]"
    by code_simp
  have b: "filterBooks [dune, hobbit, ulysses] (criteria ''SS'' ''any'' ''modernism'') = Inr [ulysses]"
    by code_simp
  show ?thesis
    using filterBooks_conjunction
            [of "criteria ''  '' ''a2'' ''fantasy''" "''  ''" "''a2''" "''fantasy''"
                "[dune, hobbit, ulysses]"]
          filterBooks_conjunction
            [of "criteria ''SS'' ''any'' ''modernism''" "''SS''" "''any''" "''modernism''"
                "[dune, hobbit, ulysses]"]
          a b
    by (simp add: criteria_def)
qed

text \<open>
  C5: the identity criteria (empty title query, author "any", genre "any") keep
  every book, in the same order.
\<close>

theorem filterBooks_identity:
  "filterBooks bs [''title'' \<mapsto> '''', ''author'' \<mapsto> ''any'', ''genre'' \<mapsto> ''any''] = Inr bs"
  using filterBooks_criteria [of bs "''''" "''any''" "''any''"]
  by (simp add: criteria_def satisfies_criteria_def)

theorem filterBooks_identity_witness:
  "filterBooks [hobbit, dune, hobbit]
     [''title'' \<mapsto> '''', ''author'' \<mapsto> ''any'', ''genre'' \<mapsto> ''any''] = Inr [hobbit, dune, hobbit]"
  by (rule filterBooks_identity)

text \<open>
  C10: trimming only decides whether the title query counts as empty. A query that
  is not whitespace-only is searched untrimmed, so the kept books are those whose
  lower-cased title contains the whole lower-cased query, white space included;
  " du " does not match "Dune", while "du" does.
\<close>

theorem filterBooks_untrimmed_query:
  assumes "filters ''title'' = Some q" and "trim q \<noteq> ''''"
  shows "filterBooks bs filters =
         Inr (filter (\<lambda>b. (filters ''genre'' = Some ''any''
                            \<or> array_includes (genres b) (filters ''genre''))
                         \<and> sublist (toLowerCase q) (toLowerCase (title b))
                         \<and> (filters ''author'' = Some ''any''
                            \<or> Some (author b) = filters ''author'')) bs)
       \<and> filterBooks [dune] [''title'' \<mapsto> '' du '', ''author'' \<mapsto> ''any'', ''genre'' \<mapsto> ''any'']
           = Inr []
       \<and> filterBooks [dune] [''title'' \<mapsto> ''du'', ''author'' \<mapsto> ''any'', ''genre'' \<mapsto> ''any'']
           = Inr [dune]
       \<and> title dune = ''Dune''"
proof (intro conjI)
  show "filterBooks bs filters =
         Inr (filter (\<lambda>b. (filters ''genre'' = Some ''any''
                            \<or> array_includes (genres b) (filters ''genre''))
                         \<and> sublist (toLowerCase q) (toLowerCase (title b))
                         \<and> (filters ''author'' = Some ''any''
                            \<or> Some (author b) = filters ''author'')) bs)"
    using assms by (simp add: filterBooks_title_present includes_str_sublist)
next
  show "filterBooks [dune] [''title'' \<mapsto> '' du '', ''author'' \<mapsto> ''any'', ''genre'' \<mapsto> ''any'']
          = Inr []"
    by code_simp
next
  show "filterBooks [dune] [''title'' \<mapsto> ''du'', ''author'' \<mapsto> ''any'', ''genre'' \<mapsto> ''any'']
          = Inr [dune]"
    by code_simp
next
  show "title dune = ''Dune''" by (simp add: dune_def)
qed

theorem filterBooks_untrimmed_query_witness:
  "trim '' ob '' \<noteq> ''''
   \<and> filterBooks [dune, hobbit] (criteria '' ob '' ''any'' ''any'') = Inr []
   \<and> trim ''OB'' \<noteq> ''''
   \<and> filterBooks [dune, hobbit] (criteria ''OB'' ''any'' ''any'') = Inr [hobbit]"
proof -
  have t1: "trim '' ob '' \<noteq> ''''" by code_simp
  have t2: "trim ''OB'' \<noteq> ''''" by code_simp
  have l1: "toLowerCase '' ob '' = '' ob ''" by code_simp
  have l2: "toLowerCase ''OB'' = ''ob''" by code_simp
  have l3: "toLowerCase ''Dune'' = ''dune''" by code_simp
  have l4: "toLowerCase ''Hobbit'' = ''hobbit''" by code_simp
  have s1: "\<not> sublist '' ob '' ''dune''" by code_simp
  have s2: "\<not> sublist '' ob '' ''hobbit''" by code_simp
  have s3: "\<not> sublist ''ob'' ''dune''" by code_simp
  have s4: "sublist ''ob'' ''hobbit''" by code_simp
  show ?thesis
    using filterBooks_untrimmed_query
            [of "criteria '' ob '' ''any'' ''any''" "'' ob ''" "[dune, hobbit]"]
          filterBooks_untrimmed_query
            [of "criteria ''OB'' ''any'' ''any''" "''OB''" "[dune, hobbit]"]
          t1 t2
    by (simp add: criteria_def dune_def hobbit_def l1 l2 l3 l4 s1 s2 s3 s4)
qed

section \<open>Slices\<close>

text \<open>With a non-negative start, \<open>slice\<close> is the index range clipped to the array.\<close>

lemma take_drop_index_range:
  "take n (drop k xs) = map (\<lambda>i. xs ! i) [k ..< min (k + n) (length xs)]"
proof (rule nth_equalityI)
  show "length (take n (drop k xs)) = length (map (\<lambda>i. xs ! i) [k ..< min (k + n) (length xs)])"
    by simp
next
  fix i
  assume i: "i < length (take n (drop k xs))"
  then have "i < n" by simp
  moreover from i have "k + i < length xs" by simp arith
  ultimately show "take n (drop k xs) ! i = map (\<lambda>i. xs ! i) [k ..< min (k + n) (length xs)] ! i"
    by simp
qed

lemma slice_index_range:
  assumes "0 \<le> a" and "a \<le> b"
  shows "slice xs a b = map (\<lambda>i. xs ! i) [nat a ..< min (nat b) (length xs)]"
proof (cases "a \<le> int (length xs)")
  case True
  then have "slice xs a b = take (nat (min b (int (length xs)) - a)) (drop (nat a) xs)"
    using assms by (simp add: slice_def Let_def)
  also have "\<dots> = map (\<lambda>i. xs ! i)
                     [nat a ..< min (nat a + nat (min b (int (length xs)) - a)) (length xs)]"
    by (rule take_drop_index_range)
  also have "min (nat a + nat (min b (int (length xs)) - a)) (length xs)
             = min (nat b) (length xs)"
    using assms True by arith
  finally show ?thesis .
next
  case False
  then have "slice xs a b = []"
    using assms by (simp add: slice_def Let_def)
  moreover have "min (nat b) (length xs) \<le> nat a"
    using False by arith
  ultimately show ?thesis by simp
qed

lemma slice_beyond_end:
  assumes "int (length xs) \<le> a"
  shows "slice xs a b = []"
proof -
  have "0 \<le> a" using assms by linarith
  then show ?thesis using assms by (simp add: slice_def Let_def min_def)
qed

section \<open>The Pagination Controller\<close>

lemma showMoreBooks_session:
  "books (showMoreBooks this) = books this"
  "matches (showMoreBooks this) = matches this"
  "booksPerPage (showMoreBooks this) = booksPerPage this"
  "page (showMoreBooks this) = page this + 1"
  by (simp_all add: showMoreBooks_def updateShowMoreButton_method_def Let_def)

lemma showMoreBooks_list_items:
  "list_items (doc (showMoreBooks this)) =
   list_items (doc this)
   @ map (\<lambda>b. createBookElement b (authors this))
         (slice (matches this) (page this * booksPerPage this)
                ((page this + 1) * booksPerPage this))"
  by (simp add: showMoreBooks_def updateShowMoreButton_method_def Let_def)

lemma showMoreBooks_list_button:
  "list_button (doc (showMoreBooks this)) =
   updateShowMoreButton (list_button (doc this)) (int (length (matches this)))
     (page this + 1) (booksPerPage this)"
  by (simp add: showMoreBooks_def updateShowMoreButton_method_def Let_def)

text \<open>
  C6: the number printed on the button is \<open>max 0 (length - page * pageSize)\<close>, never
  negative, and the button is enabled exactly when that number is positive; for
  five matches, page 1 and page size 2 it prints 3 and is enabled.
\<close>

theorem updateShowMoreButton_remaining:
  "remaining_shown (updateShowMoreButton btn (int n) currentPage pageSize)
     = remainingCount n currentPage pageSize
   \<and> 0 \<le> remaining_shown (updateShowMoreButton btn (int n) currentPage pageSize)
   \<and> (\<not> disabled (updateShowMoreButton btn (int n) currentPage pageSize))
       = canShowMore n currentPage pageSize
   \<and> remaining_shown (list_button (doc (updateShowMoreButton_method this)))
       = remainingCount (length (matches this)) (page this) (booksPerPage this)
   \<and> (\<not> disabled (list_button (doc (updateShowMoreButton_method this))))
       = canShowMore (length (matches this)) (page this) (booksPerPage this)
   \<and> remaining_shown (updateShowMoreButton btn (int 5) 1 2) = 3
   \<and> \<not> disabled (updateShowMoreButton btn (int 5) 1 2)"
  by (simp add: updateShowMoreButton_def updateShowMoreButton_method_def Let_def
        remainingCount_def canShowMore_def max_def)

theorem updateShowMoreButton_remaining_witness:
  "remaining_shown (updateShowMoreButton \<lparr>disabled = False, remaining_shown = 7\<rparr> (int 4) 2 2) = 0
   \<and> disabled (updateShowMoreButton \<lparr>disabled = False, remaining_shown = 7\<rparr> (int 4) 2 2)
   \<and> remainingCount 4 1 2 = 2
   \<and> canShowMore 4 1 2"
  using updateShowMoreButton_remaining
          [of "\<lparr>disabled = False, remaining_shown = 7\<rparr>" 4 2 2]
        updateShowMoreButton_remaining
          [of "\<lparr>disabled = False, remaining_shown = 7\<rparr>" 4 1 2]
  by (simp add: remainingCount_def canShowMore_def updateShowMoreButton_def Let_def)

text \<open>
  One run of \<open>showMoreBooks\<close> with \<open>canShowMore\<close> true (page at least 1, positive
  page size) appends the cards of the next page slice, which is not empty, behind
  the cards already shown, and adds exactly 1 to the page; the matches and the
  book list stay as they are.
\<close>

lemma showMoreBooks_appends_next_page:
  assumes "1 \<le> page this" and "0 < booksPerPage this"
    and "canShowMore (length (matches this)) (page this) (booksPerPage this)"
  shows "list_items (doc (showMoreBooks this)) =
           list_items (doc this)
           @ map (\<lambda>b. createBookElement b (authors this))
                 (nextPageSlice (matches this) (page this) (booksPerPage this))
       \<and> nextPageSlice (matches this) (page this) (booksPerPage this) \<noteq> []
       \<and> page (showMoreBooks this) = page this + 1
       \<and> matches (showMoreBooks this) = matches this
       \<and> books (showMoreBooks this) = books this"
proof -
  define start where "start = page this * booksPerPage this"
  have next_start: "(page this + 1) * booksPerPage this = start + booksPerPage this"
    by (simp add: start_def distrib_right)
  have "0 < page this" using assms(1) by linarith
  then have start_pos: "0 \<le> start"
    using assms(2) by (simp add: start_def)
  have more: "start < int (length (matches this))"
    using assms(3) by (simp add: canShowMore_def remainingCount_def start_def)
  have "slice (matches this) start (start + booksPerPage this) =
        nextPageSlice (matches this) (page this) (booksPerPage this)"
    using start_pos assms(2)
    by (simp add: slice_index_range nextPageSlice_def next_start start_def [symmetric])
  moreover have "nextPageSlice (matches this) (page this) (booksPerPage this) \<noteq> []"
  proof -
    have "nat start < min (nat (start + booksPerPage this)) (length (matches this))"
      using start_pos more assms(2) by arith
    then have "[nat start ..< min (nat (start + booksPerPage this)) (length (matches this))] \<noteq> []"
      by (simp only: upt_eq_Nil_conv) arith
    then show ?thesis
      by (simp only: nextPageSlice_def next_start start_def [symmetric] map_is_Nil_conv
            not_False_eq_True)
  qed
  ultimately show ?thesis
    by (simp add: showMoreBooks_session showMoreBooks_list_items next_start
          start_def [symmetric])
qed

lemma showMoreBooks_appends_next_page_example:
  "canShowMore (length (matches (started [dune, hobbit, emma, walden, ulysses] 2)))
     (page (started [dune, hobbit, emma, walden, ulysses] 2))
     (booksPerPage (started [dune, hobbit, emma, walden, ulysses] 2))
   \<and> page (started [dune, hobbit, emma, walden, ulysses] 2) = 1
   \<and> page (showMoreBooks (started [dune, hobbit, emma, walden, ulysses] 2)) = 2
   \<and> nextPageSlice (matches (started [dune, hobbit, emma, walden, ulysses] 2)) 1 2
       = [emma, walden]
   \<and> list_items (doc (showMoreBooks (started [dune, hobbit, emma, walden, ulysses] 2))) =
       list_items (doc (started [dune, hobbit, emma, walden, ulysses] 2))
       @ [createBookElement emma example_authors, createBookElement walden example_authors]"
proof -
  let ?s = "started [dune, hobbit, emma, walden, ulysses] 2"
  have p: "page ?s = 1" by code_simp
  have n: "booksPerPage ?s = 2" by code_simp
  have m: "matches ?s = [dune, hobbit, emma, walden, ulysses]" by code_simp
  have a: "authors ?s = example_authors"
    by (simp add: started_def bookApp_def constructor_def init_def setupEventListeners_def
          updateShowMoreButton_method_def setupTheme_def renderBooks_def)
  have c: "canShowMore (length (matches ?s)) (page ?s) (booksPerPage ?s)"
    by (simp add: p n m canShowMore_def remainingCount_def)
  have s: "nextPageSlice (matches ?s) 1 2 = [emma, walden]"
    unfolding m by code_simp
  show ?thesis
    using showMoreBooks_appends_next_page [of ?s] c s
    by (simp add: p n a)
qed

text \<open>
  One run of \<open>showMoreBooks\<close> with \<open>canShowMore\<close> false appends no card and leaves
  the matches and the book list as they are, but it still adds 1 to the page: the
  method has no guard of its own. It leaves the show-more button disabled with 0
  remaining.
\<close>

lemma showMoreBooks_when_exhausted:
  assumes "\<not> canShowMore (length (matches this)) (page this) (booksPerPage this)"
    and "0 \<le> booksPerPage this"
  shows "list_items (doc (showMoreBooks this)) = list_items (doc this)
       \<and> matches (showMoreBooks this) = matches this
       \<and> books (showMoreBooks this) = books this
       \<and> page (showMoreBooks this) = page this + 1
       \<and> disabled (list_button (doc (showMoreBooks this)))
       \<and> remaining_shown (list_button (doc (showMoreBooks this))) = 0"
proof -
  have beyond: "int (length (matches this)) \<le> page this * booksPerPage this"
    using assms(1) by (simp add: canShowMore_def remainingCount_def)
  then have "slice (matches this) (page this * booksPerPage this)
               ((page this + 1) * booksPerPage this) = []"
    by (rule slice_beyond_end)
  moreover have "int (length (matches this)) - (page this + 1) * booksPerPage this \<le> 0"
    using beyond assms(2) by (simp add: distrib_right)
  ultimately show ?thesis
    by (simp add: showMoreBooks_session showMoreBooks_list_items showMoreBooks_list_button
          updateShowMoreButton_def Let_def)
qed

lemma showMoreBooks_when_exhausted_example:
  "\<not> canShowMore (length (matches (showMoreBooks (started [dune, hobbit, emma, walden] 2))))
       (page (showMoreBooks (started [dune, hobbit, emma, walden] 2)))
       (booksPerPage (showMoreBooks (started [dune, hobbit, emma, walden] 2)))
   \<and> list_items (doc (showMoreBooks (showMoreBooks (started [dune, hobbit, emma, walden] 2))))
       = list_items (doc (showMoreBooks (started [dune, hobbit, emma, walden] 2)))
   \<and> page (showMoreBooks (showMoreBooks (started [dune, hobbit, emma, walden] 2))) = 3
   \<and> disabled (list_button (doc (showMoreBooks (showMoreBooks
        (started [dune, hobbit, emma, walden] 2)))))"
proof -
  let ?s = "showMoreBooks (started [dune, hobbit, emma, walden] 2)"
  have p: "page ?s = 2" by code_simp
  have n: "booksPerPage ?s = 2" by code_simp
  have m: "length (matches ?s) = 4" by code_simp
  have c: "\<not> canShowMore (length (matches ?s)) (page ?s) (booksPerPage ?s)"
    by (simp add: p n m canShowMore_def remainingCount_def)
  show ?thesis
    using showMoreBooks_when_exhausted [of ?s] c
    by (simp add: p n)
qed

section \<open>The Application Controller\<close>

lemma handleSearch_returns:
  assumes "filterBooks (books this) filters = Inr ms"
  shows "\<exists>this'. handleSearch filters this = Inr this' \<and> page this' = 1
           \<and> matches this' = ms \<and> books this' = books this"
  using assms
  by (simp add: handleSearch_def Let_def renderBookList_def updateShowMoreButton_method_def)

lemma handleSearch_throws:
  assumes "filterBooks (books this) filters = Inl e"
  shows "handleSearch filters this = Inl (e, this\<lparr>page := 1\<rparr>)"
  using assms by (simp add: handleSearch_def Let_def)

lemma showBookPreview_session:
  "books (showBookPreview pathArray this) = books this"
  "matches (showBookPreview pathArray this) = matches this"
  "page (showBookPreview pathArray this) = page this"
  by (simp_all add: showBookPreview_def split: option.splits)

lemma handleThemeChange_session:
  "books (handleThemeChange theme this) = books this"
  "matches (handleThemeChange theme this) = matches this"
  "page (handleThemeChange theme this) = page this"
  by (simp_all add: handleThemeChange_def Let_def)

lemma init_session:
  "books (init prefersDark this) = books this"
  "matches (init prefersDark this) = matches this"
  "page (init prefersDark this) = page this"
  by (simp_all add: init_def setupEventListeners_def updateShowMoreButton_method_def
        setupTheme_def renderBooks_def)

lemma bookApp_session:
  "books (bookApp bs as gs perPage prefersDark d) = bs"
  "matches (bookApp bs as gs perPage prefersDark d) = bs"
  "page (bookApp bs as gs perPage prefersDark d) = 1"
  by (simp_all add: bookApp_def constructor_def init_session)

lemma array_filter_subseq: "array_filter p xs = Inr ys \<Longrightarrow> subseq ys xs"
proof (induction xs arbitrary: ys)
  case Nil
  then show ?case by simp
next
  case (Cons x xs)
  from Cons.prems obtain keep rest
    where rest: "array_filter p xs = Inr rest"
      and ys: "ys = (if keep then x # rest else rest)"
    by (auto split: sum.splits)
  from Cons.IH [OF rest] show ?case
    by (auto simp: ys intro: subseq_Cons')
qed

section \<open>Dispatching events\<close>

lemma invoke_listeners_Cons:
  "snd (invoke_listeners (t # ts) e this) =
     (if t = target_of e then snd (invoke_listeners ts e (state_after (listener e this)))
      else snd (invoke_listeners ts e this))"
  by (auto split: sum.splits prod.splits)

text \<open>What one run of a listener does to the session.\<close>

lemma listener_session:
  "books (state_after (listener e this)) = books this
   \<and> (matches (state_after (listener e this)) = matches this
       \<or> (\<exists>f. e = SearchSubmitted f
             \<and> filterBooks (books this) f = Inr (matches (state_after (listener e this)))))"
proof (cases e)
  case (SearchSubmitted f)
  show ?thesis
  proof (cases "filterBooks (books this) f")
    case (Inl err)
    then show ?thesis
      by (simp add: SearchSubmitted handleSearch_throws)
  next
    case (Inr result)
    from handleSearch_returns [OF Inr] obtain this'
      where "handleSearch f this = Inr this'" and "matches this' = result"
        and "books this' = books this"
      by blast
    with Inr show ?thesis
      by (simp add: SearchSubmitted)
  qed
next
  case ShowMoreClicked
  then show ?thesis by (simp add: showMoreBooks_session)
next
  case (CardClicked pathArray)
  then show ?thesis by (simp add: showBookPreview_session)
next
  case (ThemeSubmitted theme)
  then show ?thesis by (simp add: handleThemeChange_session)
qed simp_all

text \<open>The same for a whole dispatch, whatever listeners are registered.\<close>

lemma invoke_listeners_session:
  "books (snd (invoke_listeners ts e this)) = books this
   \<and> (matches (snd (invoke_listeners ts e this)) = matches this
       \<or> (\<exists>f. e = SearchSubmitted f
             \<and> filterBooks (books this) f = Inr (matches (snd (invoke_listeners ts e this)))))"
proof (induction ts arbitrary: this)
  case Nil
  show ?case by simp
next
  case (Cons t ts)
  show ?case
  proof (cases "t = target_of e")
    case False
    with Cons.IH [of this] show ?thesis
      by (simp only: invoke_listeners_Cons if_False)
  next
    case True
    from Cons.IH [of "state_after (listener e this)"] listener_session [of e this]
    show ?thesis
      by (simp only: invoke_listeners_Cons True if_True) auto
  qed
qed

text \<open>
  A search whose filter returns leaves the page at 1 and the matches at the filter
  result after every listener on the search form, so also after the last one.
\<close>

lemma invoke_listeners_search:
  assumes "filterBooks (books this) f = Inr ms"
  shows "fst (invoke_listeners ts (SearchSubmitted f) this) = []
       \<and> books (snd (invoke_listeners ts (SearchSubmitted f) this)) = books this
       \<and> (if data_search_form \<in> set ts
           then page (snd (invoke_listeners ts (SearchSubmitted f) this)) = 1
                \<and> matches (snd (invoke_listeners ts (SearchSubmitted f) this)) = ms
           else snd (invoke_listeners ts (SearchSubmitted f) this) = this)"
  using assms
proof (induction ts arbitrary: this)
  case Nil
  show ?case by simp
next
  case (Cons t ts)
  show ?case
  proof (cases "t = data_search_form")
    case False
    with Cons.IH [OF Cons.prems] show ?thesis by simp
  next
    case True
    from handleSearch_returns [OF Cons.prems] obtain this'
      where run: "handleSearch f this = Inr this'" and "page this' = 1"
        and "matches this' = ms" and same: "books this' = books this"
      by blast
    moreover from Cons.prems same have "filterBooks (books this') f = Inr ms"
      by simp
    note Cons.IH [OF this]
    ultimately show ?thesis
      by (simp add: True split: if_splits)
  qed
qed

text \<open>A click on the show-more button runs \<open>showMoreBooks\<close> once for every registration.\<close>

lemma invoke_listeners_show_more:
  "invoke_listeners ts ShowMoreClicked this =
   ([], (showMoreBooks ^^ count_list ts data_list_button) this)"
  by (induction ts arbitrary: this) (simp_all add: funpow_swap1)

text \<open>After start-up every element carries two listeners.\<close>

lemma started_listeners:
  "listeners (doc (started bs perPage)) =
   [data_search_cancel, data_settings_cancel, data_header_search, data_header_settings,
    data_list_close, data_settings_form, data_search_form, data_list_button, data_list_items,
    data_search_cancel, data_settings_cancel, data_header_search, data_header_settings,
    data_list_close, data_settings_form, data_search_form, data_list_button, data_list_items]"
  by (simp add: started_def bookApp_def constructor_def init_def setupEventListeners_def
        updateShowMoreButton_method_def setupTheme_def renderBooks_def blank_document_def)

lemma started_click_runs_twice:
  "handle ShowMoreClicked (started bs perPage) =
   ([], showMoreBooks (showMoreBooks (started bs perPage)))"
  by (simp add: handle_def invoke_listeners_show_more started_listeners)

text \<open>
  C7: the claim does not hold of the script. \<open>init\<close> runs in the constructor and
  once more on the last line, so two listeners are on the show-more button and a
  click runs \<open>showMoreBooks\<close> twice. After start-up on five books with page size 2
  the page is 1, \<open>canShowMore\<close> is true, the button is enabled and the next page
  slice is the third and fourth book; one click appends the cards of the third,
  fourth and fifth book and leaves the page at 3, not at 2.
\<close>

theorem show_more_click_on_five_books:
  "page (started [dune, hobbit, emma, walden, ulysses] 2) = 1
   \<and> canShowMore (length (matches (started [dune, hobbit, emma, walden, ulysses] 2)))
       (page (started [dune, hobbit, emma, walden, ulysses] 2))
       (booksPerPage (started [dune, hobbit, emma, walden, ulysses] 2))
   \<and> \<not> disabled (list_button (doc (started [dune, hobbit, emma, walden, ulysses] 2)))
   \<and> nextPageSlice (matches (started [dune, hobbit, emma, walden, ulysses] 2))
       (page (started [dune, hobbit, emma, walden, ulysses] 2))
       (booksPerPage (started [dune, hobbit, emma, walden, ulysses] 2)) = [emma, walden]
   \<and> handle ShowMoreClicked (started [dune, hobbit, emma, walden, ulysses] 2) =
       ([], showMoreBooks (showMoreBooks (started [dune, hobbit, emma, walden, ulysses] 2)))
   \<and> page (snd (handle ShowMoreClicked (started [dune, hobbit, emma, walden, ulysses] 2))) = 3
   \<and> map data_preview (list_items (doc (snd (handle ShowMoreClicked
        (started [dune, hobbit, emma, walden, ulysses] 2))))) =
       map data_preview (list_items (doc (started [dune, hobbit, emma, walden, ulysses] 2)))
       @ [''3'', ''4'', ''5'']"
proof -
  let ?s = "started [dune, hobbit, emma, walden, ulysses] 2"
  have p: "page ?s = 1" by code_simp
  have c: "canShowMore (length (matches ?s)) (page ?s) (booksPerPage ?s)" by code_simp
  have d: "\<not> disabled (list_button (doc ?s))" by code_simp
  have n: "nextPageSlice (matches ?s) (page ?s) (booksPerPage ?s) = [emma, walden]"
    by code_simp
  have h: "handle ShowMoreClicked ?s = ([], showMoreBooks (showMoreBooks ?s))"
    by (rule started_click_runs_twice)
  have p2: "page (showMoreBooks (showMoreBooks ?s)) = 3" by code_simp
  have l: "map data_preview (list_items (doc (showMoreBooks (showMoreBooks ?s)))) =
           map data_preview (list_items (doc ?s)) @ [''3'', ''4'', ''5'']"
    by code_simp
  show ?thesis
    unfolding h snd_conv by (intro conjI p c d n p2 l refl)
qed

text \<open>
  C2: the claim does not hold of the script, by the same double registration.
  After start-up on four books with page size 2 the page is 1 and the button is
  enabled. The first listener of one click leaves the page at 2 with
  \<open>canShowMore\<close> false; the second listener runs \<open>showMoreBooks\<close>, which has no
  guard, in that state and moves the page to 3.
\<close>

theorem show_more_click_on_four_books:
  "page (started [dune, hobbit, emma, walden] 2) = 1
   \<and> \<not> disabled (list_button (doc (started [dune, hobbit, emma, walden] 2)))
   \<and> page (showMoreBooks (started [dune, hobbit, emma, walden] 2)) = 2
   \<and> \<not> canShowMore
         (length (matches (showMoreBooks (started [dune, hobbit, emma, walden] 2))))
         (page (showMoreBooks (started [dune, hobbit, emma, walden] 2)))
         (booksPerPage (showMoreBooks (started [dune, hobbit, emma, walden] 2)))
   \<and> handle ShowMoreClicked (started [dune, hobbit, emma, walden] 2) =
       ([], showMoreBooks (showMoreBooks (started [dune, hobbit, emma, walden] 2)))
   \<and> page (snd (handle ShowMoreClicked (started [dune, hobbit, emma, walden] 2))) = 3"
proof -
  let ?s = "started [dune, hobbit, emma, walden] 2"
  have p: "page ?s = 1" by code_simp
  have d: "\<not> disabled (list_button (doc ?s))" by code_simp
  have p1: "page (showMoreBooks ?s) = 2" by code_simp
  have c: "\<not> canShowMore (length (matches (showMoreBooks ?s))) (page (showMoreBooks ?s))
               (booksPerPage (showMoreBooks ?s))"
    by code_simp
  have h: "handle ShowMoreClicked ?s = ([], showMoreBooks (showMoreBooks ?s))"
    by (rule started_click_runs_twice)
  have p2: "page (showMoreBooks (showMoreBooks ?s)) = 3" by code_simp
  show ?thesis
    unfolding h snd_conv by (intro conjI p d p1 c p2 refl)
qed

text \<open>
  C8: whatever the page and the matches were before, \<open>handleSearch\<close> with criteria
  that have a title field returns with the page at 1 and the matches replaced by
  the result of \<open>filterBooks\<close> over the book list, which stays as it was. The page
  is 1 after every run of the handler, also after one that throws. The same holds
  of the dispatched event, however many listeners (at least one) are on the
  search form: no exception is reported, the page is 1 and the matches are the
  filter result.
\<close>

theorem handleSearch_resets_page:
  assumes "filters ''title'' = Some t"
  shows "(\<exists>this'. handleSearch filters this = Inr this'
            \<and> page this' = 1
            \<and> filterBooks (books this) filters = Inr (matches this')
            \<and> books this' = books this)
       \<and> page (state_after (handleSearch filters this)) = 1
       \<and> (data_search_form \<in> set (listeners (doc this)) \<longrightarrow>
            fst (handle (SearchSubmitted filters) this) = []
            \<and> page (snd (handle (SearchSubmitted filters) this)) = 1
            \<and> filterBooks (books this) filters
                = Inr (matches (snd (handle (SearchSubmitted filters) this)))
            \<and> books (snd (handle (SearchSubmitted filters) this)) = books this)"
proof -
  obtain ms where ms: "filterBooks (books this) filters = Inr ms"
    using filterBooks_title_present [where filters = filters and t = t, OF assms] by blast
  from handleSearch_returns [OF ms] obtain this'
    where "handleSearch filters this = Inr this'" and "page this' = 1"
      and "matches this' = ms" and "books this' = books this"
    by blast
  with ms have one_run: "(\<exists>this'. handleSearch filters this = Inr this'
            \<and> page this' = 1
            \<and> filterBooks (books this) filters = Inr (matches this')
            \<and> books this' = books this)
       \<and> page (state_after (handleSearch filters this)) = 1"
    by simp
  have "fst (handle (SearchSubmitted filters) this) = []
        \<and> page (snd (handle (SearchSubmitted filters) this)) = 1
        \<and> filterBooks (books this) filters
            = Inr (matches (snd (handle (SearchSubmitted filters) this)))
        \<and> books (snd (handle (SearchSubmitted filters) this)) = books this"
    if "data_search_form \<in> set (listeners (doc this))"
    using invoke_listeners_search [OF ms, of "listeners (doc this)"] that ms
    by (simp add: handle_def)
  with one_run show ?thesis by blast
qed

theorem handleSearch_resets_page_witness:
  "page (showMoreBooks (showMoreBooks (started [dune, hobbit, emma, walden, ulysses] 2))) = 3
   \<and> (\<exists>this'. handleSearch (criteria ''U'' ''any'' ''any'')
         (showMoreBooks (showMoreBooks (started [dune, hobbit, emma, walden, ulysses] 2)))
         = Inr this'
        \<and> page this' = 1 \<and> matches this' = [dune, ulysses])
   \<and> data_search_form \<in> set (listeners (doc
        (showMoreBooks (showMoreBooks (started [dune, hobbit, emma, walden, ulysses] 2)))))
   \<and> page (snd (handle (SearchSubmitted (criteria ''U'' ''any'' ''any''))
        (showMoreBooks (showMoreBooks (started [dune, hobbit, emma, walden, ulysses] 2))))) = 1
   \<and> matches (snd (handle (SearchSubmitted (criteria ''U'' ''any'' ''any''))
        (showMoreBooks (showMoreBooks (started [dune, hobbit, emma, walden, ulysses] 2)))))
       = [dune, ulysses]"
proof -
  let ?s = "showMoreBooks (showMoreBooks (started [dune, hobbit, emma, walden, ulysses] 2))"
  have p: "page ?s = 3" by code_simp
  have b: "books ?s = [dune, hobbit, emma, walden, ulysses]" by code_simp
  have f: "filterBooks [dune, hobbit, emma, walden, ulysses] (criteria ''U'' ''any'' ''any'')
           = Inr [dune, ulysses]"
    by code_simp
  have t: "criteria ''U'' ''any'' ''any'' ''title'' = Some ''U''"
    by (simp add: criteria_def)
  have l: "data_search_form \<in> set (listeners (doc ?s))"
    by (simp add: showMoreBooks_def updateShowMoreButton_method_def Let_def started_listeners)
  show ?thesis
    using handleSearch_resets_page [of "criteria ''U'' ''any'' ''any''" "''U''" ?s, OF t] p l
    by (auto simp: b f)
qed

text \<open>
  C9: \<open>findBookById\<close> returns nothing exactly when no book has the id (so on the
  empty list), and otherwise the first book with that id: the books before it
  have other ids, whatever comes after it. It is a total function; there is no
  branch that throws.
\<close>

theorem findBookById_first_match:
  "(findBookById bs i = None \<longleftrightarrow> (\<forall>b \<in> set bs. id_book b \<noteq> i))
   \<and> (findBookById bs i = Some b \<longleftrightarrow>
        (\<exists>before after. bs = before @ b # after \<and> id_book b = i
           \<and> (\<forall>x \<in> set before. id_book x \<noteq> i)))
   \<and> findBookById [] i = None"
proof (intro conjI)
  show "findBookById bs i = None \<longleftrightarrow> (\<forall>b \<in> set bs. id_book b \<noteq> i)"
    by (auto simp: findBookById_def find_None_iff)
next
  show "findBookById bs i = Some b \<longleftrightarrow>
        (\<exists>before after. bs = before @ b # after \<and> id_book b = i
           \<and> (\<forall>x \<in> set before. id_book x \<noteq> i))"
    unfolding findBookById_def
  proof (induction bs)
    case Nil
    show ?case by simp
  next
    case (Cons a rest)
    show ?case
    proof (cases "id_book a = i")
      case True
      have "(\<exists>before after. a # rest = before @ b # after \<and> id_book b = i
               \<and> (\<forall>x \<in> set before. id_book x \<noteq> i)) \<longleftrightarrow> a = b"
      proof
        assume "\<exists>before after. a # rest = before @ b # after \<and> id_book b = i
                  \<and> (\<forall>x \<in> set before. id_book x \<noteq> i)"
        then obtain before after
          where split: "a # rest = before @ b # after"
            and others: "\<forall>x \<in> set before. id_book x \<noteq> i"
          by blast
        show "a = b"
        proof (cases before)
          case Nil
          with split show ?thesis by simp
        next
          case (Cons c cs)
          with split others True show ?thesis by simp
        qed
      next
        assume "a = b"
        with True have "a # rest = [] @ b # rest \<and> id_book b = i
                         \<and> (\<forall>x \<in> set []. id_book x \<noteq> i)"
          by simp
        then show "\<exists>before after. a # rest = before @ b # after \<and> id_book b = i
                     \<and> (\<forall>x \<in> set before. id_book x \<noteq> i)"
          by blast
      qed
      with True show ?thesis by simp
    next
      case False
      have "(\<exists>before after. a # rest = before @ b # after \<and> id_book b = i
               \<and> (\<forall>x \<in> set before. id_book x \<noteq> i))
            \<longleftrightarrow> (\<exists>before after. rest = before @ b # after \<and> id_book b = i
               \<and> (\<forall>x \<in> set before. id_book x \<noteq> i))"
      proof
        assume "\<exists>before after. a # rest = before @ b # after \<and> id_book b = i
                  \<and> (\<forall>x \<in> set before. id_book x \<noteq> i)"
        then obtain before after
          where split: "a # rest = before @ b # after" and found: "id_book b = i"
            and others: "\<forall>x \<in> set before. id_book x \<noteq> i"
          by blast
        show "\<exists>before after. rest = before @ b # after \<and> id_book b = i
                \<and> (\<forall>x \<in> set before. id_book x \<noteq> i)"
        proof (cases before)
          case Nil
          with split found False show ?thesis by simp
        next
          case (Cons c cs)
          with split found others have "rest = cs @ b # after \<and> id_book b = i
                                         \<and> (\<forall>x \<in> set cs. id_book x \<noteq> i)"
            by simp
          then show ?thesis by blast
        qed
      next
        assume "\<exists>before after. rest = before @ b # after \<and> id_book b = i
                  \<and> (\<forall>x \<in> set before. id_book x \<noteq> i)"
        then obtain before after
          where "rest = before @ b # after" and "id_book b = i"
            and "\<forall>x \<in> set before. id_book x \<noteq> i"
          by blast
        with False have "a # rest = (a # before) @ b # after \<and> id_book b = i
                          \<and> (\<forall>x \<in> set (a # before). id_book x \<noteq> i)"
          by simp
        then show "\<exists>before after. a # rest = before @ b # after \<and> id_book b = i
                     \<and> (\<forall>x \<in> set before. id_book x \<noteq> i)"
          by blast
      qed
      with False Cons.IH show ?thesis by simp
    qed
  qed
next
  show "findBookById [] i = None" by (simp add: findBookById_def)
qed

theorem findBookById_first_match_witness:
  "findBookById [hobbit, dune, dune_reissue] ''1'' = Some dune
   \<and> dune_reissue \<noteq> dune \<and> id_book dune_reissue = ''1''
   \<and> findBookById [hobbit, dune, dune_reissue] ''id_that_does_not_exist'' = None"
proof -
  have "[hobbit, dune, dune_reissue] = [hobbit] @ dune # [dune_reissue] \<and> id_book dune = ''1''
        \<and> (\<forall>x \<in> set [hobbit]. id_book x \<noteq> ''1'')"
    by (simp add: hobbit_def dune_def)
  then have "\<exists>before after. [hobbit, dune, dune_reissue] = before @ dune # after
               \<and> id_book dune = ''1'' \<and> (\<forall>x \<in> set before. id_book x \<noteq> ''1'')"
    by blast
  moreover have "\<forall>b \<in> set [hobbit, dune, dune_reissue]. id_book b \<noteq> ''id_that_does_not_exist''"
    by (simp add: hobbit_def dune_def dune_reissue_def)
  moreover have "dune_reissue \<noteq> dune \<and> id_book dune_reissue = ''1''"
    by (simp add: dune_def dune_reissue_def)
  ultimately show ?thesis
    using findBookById_first_match [of "[hobbit, dune, dune_reissue]" "''1''" dune]
          findBookById_first_match
            [of "[hobbit, dune, dune_reissue]" "''id_that_does_not_exist''" dune]
    by simp
qed

text \<open>
  C4: \<open>filterBooks\<close> returns a subsequence of its book list. The matches are the
  book list itself when the script has started, and every event keeps the book
  list and keeps the matches a subsequence of it, whatever listeners are
  registered and whether they return or throw: the matches stay as they are or
  become the result of \<open>filterBooks\<close> over the book list.
\<close>

theorem matches_subsequence_of_books:
  "(filterBooks bs filters = Inr ms \<longrightarrow> subseq ms bs)
   \<and> matches (bookApp bs as gs perPage prefersDark d) = bs
   \<and> books (bookApp bs as gs perPage prefersDark d) = bs
   \<and> matches_within (bookApp bs as gs perPage prefersDark d)
   \<and> books (snd (handle e this)) = books this
   \<and> (matches (snd (handle e this)) = matches this
       \<or> (\<exists>f. e = SearchSubmitted f
             \<and> filterBooks (books this) f = Inr (matches (snd (handle e this)))))
   \<and> (matches_within this \<longrightarrow> matches_within (snd (handle e this)))"
proof -
  have sub: "subseq ms' bs'" if "filterBooks bs' f = Inr ms'" for bs' f ms'
    using that unfolding filterBooks_def by (rule array_filter_subseq)
  have step: "books (snd (handle e this)) = books this
      \<and> (matches (snd (handle e this)) = matches this
         \<or> (\<exists>f. e = SearchSubmitted f
               \<and> filterBooks (books this) f = Inr (matches (snd (handle e this)))))"
    unfolding handle_def by (rule invoke_listeners_session)
  have keep: "matches_within (snd (handle e this))" if "matches_within this"
    using step that sub unfolding matches_within_def by auto
  show ?thesis
    using sub step keep by (simp add: bookApp_session matches_within_def)
qed

theorem matches_subsequence_of_books_witness:
  "subseq [dune, ulysses] [dune, hobbit, emma, walden, ulysses]
   \<and> matches_within (started [dune, hobbit, emma, walden, ulysses] 2)
   \<and> matches (snd (handle (SearchSubmitted (criteria ''U'' ''any'' ''any''))
        (started [dune, hobbit, emma, walden, ulysses] 2))) = [dune, ulysses]
   \<and> matches_within (snd (handle (SearchSubmitted (criteria ''U'' ''any'' ''any''))
        (started [dune, hobbit, emma, walden, ulysses] 2)))"
proof -
  let ?bs = "[dune, hobbit, emma, walden, ulysses]"
  let ?f = "criteria ''U'' ''any'' ''any''"
  have f: "filterBooks ?bs ?f = Inr [dune, ulysses]"
    by code_simp
  have m: "matches (snd (handle (SearchSubmitted ?f) (started ?bs 2))) = [dune, ulysses]"
    by code_simp
  show ?thesis
    using matches_subsequence_of_books
            [of ?bs ?f "[dune, ulysses]" example_authors Map.empty 2 False blank_document
                "SearchSubmitted ?f" "started ?bs 2"]
          f m
    by (simp add: started_def)
qed

end
